theory Spec2Isabelle
  imports Main
begin

section \<open>The endpoint prober of save-memory.py\<close>

text \<open>
  The script has one function, \<open>save_memory(memory_text, tags=None)\<close>. It builds a
  two-field dictionary, walks a fixed list of six URLs, posts the dictionary to each
  with \<open>requests.post\<close> and returns at the first response whose status code is 200.
  The embedding follows the function statement by statement. What the function does
  beyond returning a value is written into a state that is passed along. The entry
  point of the script calls the function once, with a literal text and six tags.
\<close>

subsection \<open>Values that travel\<close>

text \<open>
  The document that \<open>requests.post(..., json=payload)\<close> is given, as a JSON value.
  The library turns it into text; that step is library code and is not modelled.
\<close>

datatype jvalue =
    JNull
  | JString string
  | JArray "jvalue list"
  | JObject "(string \<times> jvalue) list"

datatype verb = GET | POST

text \<open>One call of the \<open>requests\<close> library: verb, URL, \<open>json=\<close> and \<open>timeout=\<close>.\<close>

record request =
  http_method :: verb
  url :: string
  json :: jvalue
  timeout :: nat

text \<open>The two attributes of a response object that the function reads.\<close>

record response =
  status_code :: int
  resp_text :: string

text \<open>
  A raised exception, with the text that \<open>str(e)\<close> gives, in the three classes that
  the two handlers of the function tell apart. \<open>RequestException\<close> stands for
  \<open>requests.exceptions.RequestException\<close> and its subclasses (connection refused,
  DNS failure, timeout). \<open>OtherException\<close> stands for any other subclass of
  \<open>Exception\<close> (a \<open>UnicodeEncodeError\<close> or an \<open>OSError\<close> of \<open>print\<close>, a
  \<open>ValueError\<close> of the library). \<open>BaseException\<close> stands for what is outside the
  class \<open>Exception\<close> (\<open>KeyboardInterrupt\<close>, \<open>SystemExit\<close>).
\<close>

datatype exc =
    RequestException (msg: string)
  | OtherException (msg: string)
  | BaseException (msg: string)

text \<open>The test of \<open>except Exception\<close>.\<close>

fun is_Exception :: "exc \<Rightarrow> bool" where
  "is_Exception (RequestException m) = True"
| "is_Exception (OtherException m) = True"
| "is_Exception (BaseException m) = False"

type_synonym outcome = "exc + response"

text \<open>
  The network is a parameter: a function that answers a request from the current
  state of the outside world and gives the next state of that world.
\<close>

type_synonym 'w transport = "'w \<Rightarrow> request \<Rightarrow> outcome \<times> 'w"

text \<open>
  The output channel is a parameter too. Given the output so far and the text of a
  \<open>print\<close> call, it lets the call return (\<open>None\<close>) or makes it raise. What
  \<open>print\<close> raises is never a \<open>RequestException\<close>: it is a \<open>Fault\<close>, an exception
  of class \<open>Exception\<close> such as \<open>UnicodeEncodeError\<close>, \<open>OSError\<close> or
  \<open>ValueError\<close>, or a \<open>Signal\<close> outside that class.
\<close>

datatype fault = Fault string | Signal string

fun raised :: "fault \<Rightarrow> exc" where
  "raised (Fault m) = OtherException m"
| "raised (Signal m) = BaseException m"

type_synonym console = "string \<Rightarrow> string \<Rightarrow> fault option"

subsection \<open>Program state\<close>

text \<open>
  Python passes lists by reference, so the \<open>tags\<close> argument is an address into a
  store of list objects. \<open>next_addr\<close> is the allocation frontier: \<open>tags = []\<close>
  creates its list there. Strings are immutable in Python and are passed as values.

  \<open>stdout\<close> holds the characters written by the \<open>print\<close> calls that returned,
  \<open>world\<close> the state of the network, and \<open>attempts\<close> is the log of every request
  made together with its outcome. The library reads the dictionary it is given and
  does not write to it: a request changes the network and the log only.
\<close>

type_synonym addr = nat

record 'w state =
  heap :: "addr \<Rightarrow> string list"
  next_addr :: addr
  stdout :: string
  world :: 'w
  attempts :: "(request \<times> outcome) list"

text \<open>The dictionary \<open>{"memory": memory_text, "tags": tags}\<close>; \<open>tags\<close> is a reference.\<close>

record payload =
  memory :: string
  tags :: addr

text \<open>A text as \<open>print\<close> writes it: followed by a line feed.\<close>

definition line :: "string \<Rightarrow> string" where
  "line t = t @ [CHR 0x0A]"

text \<open>
  \<open>print(text)\<close>: the call returns after writing the line, or raises and leaves the
  state as it was.
\<close>

definition print :: "console \<Rightarrow> string \<Rightarrow> 'w state \<Rightarrow> exc option \<times> 'w state" where
  "print con t s =
     (case con (stdout s) t of
        None \<Rightarrow> (None, s\<lparr>stdout := stdout s @ line t\<rparr>)
      | Some f \<Rightarrow> (Some (raised f), s))"

text \<open>The statement \<open>tags = []\<close>: a fresh empty list object.\<close>

definition new_list :: "'w state \<Rightarrow> addr \<times> 'w state" where
  "new_list s =
     (next_addr s, s\<lparr>heap := (heap s)(next_addr s := []), next_addr := Suc (next_addr s)\<rparr>)"

text \<open>
  What the library reads from the dictionary when the request is made: the string,
  and the list that the reference points to at that moment.
\<close>

definition payload_json :: "(addr \<Rightarrow> string list) \<Rightarrow> payload \<Rightarrow> jvalue" where
  "payload_json h p =
     JObject [(''memory'', JString (memory p)), (''tags'', JArray (map JString (h (tags p))))]"

text \<open>\<open>requests.post(endpoint, json=payload, timeout=t)\<close>.\<close>

definition requests_post ::
  "'w transport \<Rightarrow> string \<Rightarrow> payload \<Rightarrow> nat \<Rightarrow> 'w state \<Rightarrow> outcome \<times> 'w state" where
  "requests_post post endpoint p t s =
     (let req = \<lparr>http_method = POST, url = endpoint, json = payload_json (heap s) p, timeout = t\<rparr>;
          (r, w) = post (world s) req
      in (r, s\<lparr>world := w, attempts := attempts s @ [(req, r)]\<rparr>))"

subsection \<open>The function\<close>

definition endpoints :: "string list" where
  "endpoints =
     [''http://localhost:8050/api/save_memory'',
      ''http://localhost:8051/api/save_memory'',
      ''http://localhost:8050/sse/save_memory'',
      ''http://localhost:8051/sse/save_memory'',
      ''http://localhost:8050/mem0/save_memory'',
      ''http://localhost:8051/mem0/save_memory'']"

text \<open>
  The block under the inner \<open>try\<close> (source lines 29 to 34). The result is \<open>Inl e\<close>
  when a statement of the block raises \<open>e\<close>, \<open>Inr (Some True)\<close> when
  \<open>return True\<close> was executed, and \<open>Inr None\<close> when the block ends without
  returning, which is the case of a response with another status code than 200.
\<close>

definition try_endpoint ::
  "'w transport \<Rightarrow> console \<Rightarrow> payload \<Rightarrow> string \<Rightarrow> 'w state \<Rightarrow> (exc + bool option) \<times> 'w state" where
  "try_endpoint post con p endpoint s =
     (case print con (''Trying endpoint: '' @ endpoint) s of
        (Some e, s1) \<Rightarrow> (Inl e, s1)
      | (None, s1) \<Rightarrow>
          (case requests_post post endpoint p 5 s1 of
             (Inl e, s2) \<Rightarrow> (Inl e, s2)
           | (Inr response, s2) \<Rightarrow>
               if status_code response = 200 then
                 (case print con (''Memory saved successfully via '' @ endpoint) s2 of
                    (Some e, s3) \<Rightarrow> (Inl e, s3)
                  | (None, s3) \<Rightarrow>
                      (case print con (''Response: '' @ resp_text response) s3 of
                         (Some e, s4) \<Rightarrow> (Inl e, s4)
                       | (None, s4) \<Rightarrow> (Inr (Some True), s4)))
               else (Inr None, s2)))"

text \<open>
  The \<open>for endpoint in endpoints\<close> statement. A \<open>RequestException\<close> raised in the
  block is handled by the \<open>except\<close> clause (lines 35 to 37), whose own \<open>print\<close> is
  not protected; an exception of another class leaves the loop. The result is
  \<open>Inr (Some b)\<close> when \<open>return b\<close> was executed, \<open>Inr None\<close> when the list was
  exhausted, and \<open>Inl e\<close> when \<open>e\<close> leaves the statement.
\<close>

fun for_endpoints ::
  "'w transport \<Rightarrow> console \<Rightarrow> payload \<Rightarrow> string list \<Rightarrow> 'w state \<Rightarrow> (exc + bool option) \<times> 'w state" where
  "for_endpoints post con p [] s = (Inr None, s)"
| "for_endpoints post con p (endpoint # rest) s =
     (case try_endpoint post con p endpoint s of
        (Inr (Some b), s1) \<Rightarrow> (Inr (Some b), s1)
      | (Inr None, s1) \<Rightarrow> for_endpoints post con p rest s1
      | (Inl (RequestException m), s1) \<Rightarrow>
          (case print con (''Error with '' @ endpoint @ '': '' @ m) s1 of
             (Some e, s2) \<Rightarrow> (Inl e, s2)
           | (None, s2) \<Rightarrow> for_endpoints post con p rest s2)
      | (Inl e, s1) \<Rightarrow> (Inl e, s1))"

text \<open>
  What follows the loop inside the outer \<open>try\<close> (lines 39 and 40): after a loop that
  has not returned, the closing line and \<open>return False\<close>.
\<close>

definition after_loop ::
  "console \<Rightarrow> (exc + bool option) \<times> 'w state \<Rightarrow> (exc + bool) \<times> 'w state" where
  "after_loop con rs =
     (case rs of
        (Inr (Some b), s) \<Rightarrow> (Inr b, s)
      | (Inr None, s) \<Rightarrow>
          (case print con ''Failed to save memory to any endpoint'' s of
             (Some e, s1) \<Rightarrow> (Inl e, s1)
           | (None, s1) \<Rightarrow> (Inr False, s1))
      | (Inl e, s) \<Rightarrow> (Inl e, s))"

text \<open>
  The clause \<open>except Exception as e\<close> (lines 42 to 44). Its \<open>print\<close> is outside every
  \<open>try\<close>: what it raises leaves the function, as does an exception outside the class
  \<open>Exception\<close>.
\<close>

definition except_Exception ::
  "console \<Rightarrow> (exc + bool) \<times> 'w state \<Rightarrow> (exc + bool) \<times> 'w state" where
  "except_Exception con rs =
     (case rs of
        (Inr b, s) \<Rightarrow> (Inr b, s)
      | (Inl e, s) \<Rightarrow>
          if is_Exception e then
            (case print con (''Error: '' @ msg e) s of
               (Some e', s1) \<Rightarrow> (Inl e', s1)
             | (None, s1) \<Rightarrow> (Inr False, s1))
          else (Inl e, s))"

text \<open>
  The body of \<open>save_memory\<close> with the endpoint list as a parameter, and the function
  itself, which runs the body on the list written in the source. The result is
  \<open>Inr b\<close> when the function returns \<open>b\<close> and \<open>Inl e\<close> when \<open>e\<close> leaves it.
\<close>

definition save_memory_on ::
  "string list \<Rightarrow> 'w transport \<Rightarrow> console \<Rightarrow> string \<Rightarrow> addr option \<Rightarrow> 'w state
     \<Rightarrow> (exc + bool) \<times> 'w state" where
  "save_memory_on es post con memory_text tags_arg s =
     (let (tags_ref, s1) = (case tags_arg of None \<Rightarrow> new_list s | Some a \<Rightarrow> (a, s));
          p = \<lparr>memory = memory_text, tags = tags_ref\<rparr>
      in except_Exception con (after_loop con (for_endpoints post con p es s1)))"

definition save_memory ::
  "'w transport \<Rightarrow> console \<Rightarrow> string \<Rightarrow> addr option \<Rightarrow> 'w state \<Rightarrow> (exc + bool) \<times> 'w state" where
  "save_memory = save_memory_on endpoints"

subsection \<open>Observations on a run\<close>

text \<open>An outcome that the loop takes for success: a response whose status code is 200.\<close>

definition is_ok :: "outcome \<Rightarrow> bool" where
  "is_ok r = (case r of Inr response \<Rightarrow> status_code response = 200 | Inl e \<Rightarrow> False)"

text \<open>
  An outcome after which the loop goes on: a response with another status code, or a
  \<open>RequestException\<close>. An exception of another class is neither.
\<close>

definition is_failure :: "outcome \<Rightarrow> bool" where
  "is_failure r =
     (case r of Inr response \<Rightarrow> status_code response \<noteq> 200
              | Inl (RequestException e) \<Rightarrow> True
              | Inl e \<Rightarrow> False)"

text \<open>A failure by a request-level error: the library raised a \<open>RequestException\<close>.\<close>

definition is_request_error :: "outcome \<Rightarrow> bool" where
  "is_request_error r = (case r of Inl (RequestException e) \<Rightarrow> True | _ \<Rightarrow> False)"

text \<open>The requests made between two states, oldest first, each with its outcome.\<close>

definition attempted :: "'w state \<Rightarrow> 'w state \<Rightarrow> (request \<times> outcome) list" where
  "attempted s s' = drop (length (attempts s)) (attempts s')"

text \<open>The request that the loop body makes for one endpoint.\<close>

definition post_request :: "(addr \<Rightarrow> string list) \<Rightarrow> payload \<Rightarrow> string \<Rightarrow> request" where
  "post_request h p e = \<lparr>http_method = POST, url = e, json = payload_json h p, timeout = 5\<rparr>"

text \<open>The state, the store and the dictionary after the first statements of the function.\<close>

definition entry_state :: "addr option \<Rightarrow> 'w state \<Rightarrow> 'w state" where
  "entry_state tags_arg s = (case tags_arg of None \<Rightarrow> snd (new_list s) | Some a \<Rightarrow> s)"

definition entry_heap :: "addr option \<Rightarrow> 'w state \<Rightarrow> addr \<Rightarrow> string list" where
  "entry_heap tags_arg s = (case tags_arg of None \<Rightarrow> (heap s)(next_addr s := []) | Some a \<Rightarrow> heap s)"

definition entry_payload :: "string \<Rightarrow> addr option \<Rightarrow> 'w state \<Rightarrow> payload" where
  "entry_payload memory_text tags_arg s =
     \<lparr>memory = memory_text, tags = (case tags_arg of None \<Rightarrow> next_addr s | Some a \<Rightarrow> a)\<rparr>"

text \<open>
  What the network has in store for the loop: the request for each endpoint of a list,
  in order, with the answer it gets if every endpoint before it has been tried. The
  requests are built by \<open>mk\<close>; the world is passed from one request to the next.
\<close>

fun plan :: "'w transport \<Rightarrow> (string \<Rightarrow> request) \<Rightarrow> 'w \<Rightarrow> string list \<Rightarrow> (request \<times> outcome) list" where
  "plan post mk w [] = []"
| "plan post mk w (e # es) = (case post w (mk e) of (r, w') \<Rightarrow> (mk e, r) # plan post mk w' es)"

text \<open>The same for a call of the function with its arguments, from the state before the call.\<close>

definition answers ::
  "'w transport \<Rightarrow> string \<Rightarrow> addr option \<Rightarrow> 'w state \<Rightarrow> string list \<Rightarrow> (request \<times> outcome) list" where
  "answers post memory_text tags_arg s es =
     plan post (post_request (entry_heap tags_arg s) (entry_payload memory_text tags_arg s)) (world s) es"

text \<open>
  The texts that one pass through the loop prints, by the outcome of its request, when
  no \<open>print\<close> raises.
\<close>

definition attempt_lines :: "request \<times> outcome \<Rightarrow> string list" where
  "attempt_lines a =
     (''Trying endpoint: '' @ url (fst a)) #
     (case snd a of
        Inr response \<Rightarrow>
          if status_code response = 200
          then [''Memory saved successfully via '' @ url (fst a), ''Response: '' @ resp_text response]
          else []
      | Inl (RequestException e) \<Rightarrow> [''Error with '' @ url (fst a) @ '': '' @ e]
      | Inl e \<Rightarrow> [])"

text \<open>The texts of a sequence of passes, and the characters that printing texts writes.\<close>

definition run_lines :: "(request \<times> outcome) list \<Rightarrow> string list" where
  "run_lines tr = concat (map attempt_lines tr)"

definition text_of :: "string list \<Rightarrow> string" where
  "text_of ls = concat (map line ls)"

text \<open>The two texts of an attempt that fails by a request-level error.\<close>

definition error_lines :: "request \<times> outcome \<Rightarrow> string list" where
  "error_lines a =
     [''Trying endpoint: '' @ url (fst a),
      ''Error with '' @ url (fst a) @ '': '' @ (case snd a of Inl e \<Rightarrow> msg e | Inr response \<Rightarrow> [])]"

text \<open>The output channel lets a sequence of \<open>print\<close> calls return, from a given output.\<close>

fun accepts :: "console \<Rightarrow> string \<Rightarrow> string list \<Rightarrow> bool" where
  "accepts con out [] = True"
| "accepts con out (t # ts) = (con out t = None \<and> accepts con (out @ line t) ts)"

subsection \<open>Concrete networks and output channels\<close>

text \<open>A state before any call: no output, no request made, every list object empty.\<close>

definition init_state :: "nat state" where
  "init_state = \<lparr>heap = (\<lambda>a. []), next_addr = 0, stdout = [], world = 0, attempts = []\<rparr>"

text \<open>
  The world of these networks counts the requests received. \<open>third_accepts\<close> refuses
  the first two connections and answers the third request with status 200 and the body
  \<open>saved\<close>; \<open>respond_with\<close> answers every request with the same status and body;
  \<open>raises\<close> makes every call of the library raise the same exception; \<open>flaky\<close>
  refuses every other connection and answers the rest with status 404.
\<close>

definition third_accepts :: "nat transport" where
  "third_accepts n req =
     (if n = 2 then Inr \<lparr>status_code = 200, resp_text = ''saved''\<rparr>
      else Inl (RequestException ''connection refused''), Suc n)"

definition respond_with :: "int \<Rightarrow> string \<Rightarrow> nat transport" where
  "respond_with code body n req = (Inr \<lparr>status_code = code, resp_text = body\<rparr>, Suc n)"

definition raises :: "exc \<Rightarrow> nat transport" where
  "raises e n req = (Inl e, Suc n)"

definition flaky :: "nat transport" where
  "flaky n req =
     (if even n then Inl (RequestException ''connection refused'')
      else Inr \<lparr>status_code = 404, resp_text = ''not found''\<rparr>, Suc n)"

text \<open>
  \<open>reliable\<close> is an output channel on which no \<open>print\<close> raises. \<open>ascii_only\<close> is a
  channel with the ASCII encoding: a text with a character beyond code 127 (its
  highest bit, \<open>digit7\<close>, is set) makes \<open>print\<close> raise a
  \<open>UnicodeEncodeError\<close>. \<open>closed_stream\<close> is a closed stream, on which
  every \<open>print\<close> raises a \<open>ValueError\<close>.
\<close>

definition reliable :: console where
  "reliable out t = None"

definition ascii_only :: console where
  "ascii_only out t =
     (if list_ex digit7 t then Some (Fault ''ascii codec cannot encode character'') else None)"


section \<open>Properties\<close>

subsection \<open>Printing and plans\<close>

lemma accepts_append:
  "accepts con out (xs @ ys) = (accepts con out xs \<and> accepts con (out @ text_of xs) ys)"
  by (induction xs arbitrary: out) (simp_all add: text_of_def)

lemma accepts_reliable [simp]: "accepts reliable out ts"
  by (induction ts arbitrary: out) (simp_all add: reliable_def)

lemma text_of_append [simp]: "text_of (xs @ ys) = text_of xs @ text_of ys"
  by (simp add: text_of_def)

lemma raised_not_request [simp]: "raised f \<noteq> RequestException m"
  by (cases f) simp_all

lemma text_of_Nil [simp]: "text_of [] = []"
  by (simp add: text_of_def)

lemma text_of_Cons: "text_of (x # xs) = line x @ text_of xs"
  by (simp add: text_of_def)

lemma url_post_request [simp]: "url (post_request h p e) = e"
  by (simp add: post_request_def)

lemma length_plan [simp]: "length (plan post mk w es) = length es"
  by (induction es arbitrary: w) (simp_all split: prod.splits)

lemma map_fst_plan [simp]: "map fst (plan post mk w es) = map mk es"
  by (induction es arbitrary: w) (simp_all split: prod.splits)

subsection \<open>What holds of every run\<close>

text \<open>
  Whatever the network and the output channel do, the requests made are an initial
  segment of the plan, the store is not written to, and the output only grows.
\<close>

lemma try_endpoint_inv:
  assumes "try_endpoint post con p e s = (r, s1)"
  shows "heap s1 = heap s \<and> next_addr s1 = next_addr s \<and> (\<exists>suf. stdout s1 = stdout s @ suf) \<and>
     r \<noteq> Inr (Some False) \<and>
     (case con (stdout s) (''Trying endpoint: '' @ e) of
        Some f \<Rightarrow> attempts s1 = attempts s \<and> world s1 = world s \<and> r = Inl (raised f)
      | None \<Rightarrow>
          (case post (world s) (post_request (heap s) p e) of
             (r0, w') \<Rightarrow>
               attempts s1 = attempts s @ [(post_request (heap s) p e, r0)] \<and> world s1 = w' \<and>
               (r = Inr (Some True) \<longrightarrow> is_ok r0)))"
  using assms
  by (auto simp: try_endpoint_def print_def requests_post_def post_request_def is_ok_def Let_def
           split: option.splits prod.splits sum.splits if_splits)

lemma for_endpoints_Cons_inv:
  assumes run: "for_endpoints post con p (e # es) s = (r, s')"
    and t: "try_endpoint post con p e s = (r1, s1)"
  shows "(r = r1 \<and> s' = s1 \<and> r1 \<noteq> Inr None) \<or>
         (\<exists>s2 suf. for_endpoints post con p es s2 = (r, s') \<and> heap s2 = heap s1 \<and>
            next_addr s2 = next_addr s1 \<and> world s2 = world s1 \<and> attempts s2 = attempts s1 \<and>
            stdout s2 = stdout s1 @ suf \<and> r1 \<noteq> Inr (Some True)) \<or>
         (s' = s1 \<and> (\<exists>x. r = Inl x) \<and> r1 \<noteq> Inr (Some True) \<and> r1 \<noteq> Inr None)"
  using run t
  by (auto simp: print_def split: option.splits prod.splits sum.splits exc.splits if_splits)

lemma for_endpoints_inv:
  "for_endpoints post con p es s = (r, s') \<Longrightarrow>
     \<exists>n. n \<le> length es
        \<and> attempts s' = attempts s @ take n (plan post (post_request (heap s) p) (world s) es)
        \<and> heap s' = heap s \<and> next_addr s' = next_addr s
        \<and> (\<exists>suf. stdout s' = stdout s @ suf)
        \<and> r \<noteq> Inr (Some False)
        \<and> (r = Inr (Some True) \<longrightarrow>
              0 < n \<and> is_ok (snd (plan post (post_request (heap s) p) (world s) es ! (n - 1))))
        \<and> (es \<noteq> [] \<and> con (stdout s) (''Trying endpoint: '' @ hd es) = None \<longrightarrow> 0 < n)"
proof (induction es arbitrary: s)
  case Nil
  then show ?case by auto
next
  case (Cons e es)
  let ?q = "post_request (heap s) p e"
  let ?mk = "post_request (heap s) p"
  obtain r1 s1 where t: "try_endpoint post con p e s = (r1, s1)" by force
  note inv = try_endpoint_inv[OF t]
  obtain r0 w' where pw: "post (world s) ?q = (r0, w')" by force
  have plan: "plan post ?mk (world s) (e # es) = (?q, r0) # plan post ?mk w' es"
    using pw by simp
  from inv obtain suf1 where suf1: "stdout s1 = stdout s @ suf1" by blast
  show ?case
  proof (cases "con (stdout s) (''Trying endpoint: '' @ e)")
    case (Some f)
    with inv have r1: "r1 = Inl (raised f)" "attempts s1 = attempts s" by simp_all
    then have "r = Inl (raised f)" "s' = s1"
      using Cons.prems t by (cases f; simp)+
    then show ?thesis using Some inv r1 by (intro exI[of _ 0]) simp
  next
    case None
    with inv pw have a1: "attempts s1 = attempts s @ [(?q, r0)]" "world s1 = w'"
      and ok1: "r1 = Inr (Some True) \<longrightarrow> is_ok r0" by simp_all
    from for_endpoints_Cons_inv[OF Cons.prems t]
    consider (stop) "r = r1" "s' = s1" "r1 \<noteq> Inr None"
      | (go) s2 suf where "for_endpoints post con p es s2 = (r, s')" "heap s2 = heap s1"
          "next_addr s2 = next_addr s1" "world s2 = world s1" "attempts s2 = attempts s1"
          "stdout s2 = stdout s1 @ suf"
      | (raise) "s' = s1" "\<exists>x. r = Inl x"
      by blast
    then show ?thesis
    proof cases
      case stop
      then show ?thesis using inv a1 ok1 plan by (intro exI[of _ 1]) auto
    next
      case raise
      then show ?thesis using inv a1 plan by (intro exI[of _ 1]) auto
    next
      case go
      from Cons.IH[OF go(1)] obtain n where n: "n \<le> length es"
        "attempts s' = attempts s2 @ take n (plan post (post_request (heap s2) p) (world s2) es)"
        "heap s' = heap s2" "next_addr s' = next_addr s2"
        "\<exists>suf. stdout s' = stdout s2 @ suf"
        "r \<noteq> Inr (Some False)"
        "r = Inr (Some True) \<longrightarrow>
              0 < n \<and> is_ok (snd (plan post (post_request (heap s2) p) (world s2) es ! (n - 1)))"
        by blast
      have h: "heap s2 = heap s" "next_addr s2 = next_addr s" "world s2 = w'"
        using go inv a1 by simp_all
      from n(5) obtain suf2 where "stdout s' = stdout s2 @ suf2" by blast
      then have out: "\<exists>suf. stdout s' = stdout s @ suf" using go(6) suf1 by simp
      have okn: "r = Inr (Some True) \<longrightarrow>
          is_ok (snd (plan post ?mk (world s) (e # es) ! (Suc n - 1)))"
      proof
        assume "r = Inr (Some True)"
        with n(7) h have "0 < n" "is_ok (snd (plan post ?mk w' es ! (n - 1)))" by simp_all
        then show "is_ok (snd (plan post ?mk (world s) (e # es) ! (Suc n - 1)))"
          unfolding plan by (cases n) simp_all
      qed
      show ?thesis
        using n(1,2,3,4,6) h a1 go(5) plan out okn
        by (intro exI[of _ "Suc n"]) simp
    qed
  qed
qed

lemma run_lines_simps [simp]:
  "run_lines [] = []" "run_lines (a # tr) = attempt_lines a @ run_lines tr"
  "run_lines (tr @ tr') = run_lines tr @ run_lines tr'"
  by (simp_all add: run_lines_def)

subsection \<open>Runs on which printing succeeds\<close>

text \<open>
  One pass through the loop when the output channel accepts its texts, and the passes
  over a run of failing endpoints.
\<close>

lemma for_endpoints_step:
  assumes pw: "post (world s) (post_request (heap s) p e) = (r0, w')"
    and acc: "accepts con (stdout s) (attempt_lines (post_request (heap s) p e, r0))"
  shows "for_endpoints post con p (e # rest) s =
     (let s1 = s\<lparr>stdout := stdout s @ text_of (attempt_lines (post_request (heap s) p e, r0)),
                  world := w', attempts := attempts s @ [(post_request (heap s) p e, r0)]\<rparr>
      in if is_ok r0 then (Inr (Some True), s1)
         else if is_failure r0 then for_endpoints post con p rest s1
         else (Inl (projl r0), s1))"
proof (cases r0)
  case (Inr resp)
  show ?thesis
  proof (cases "status_code resp = 200")
    case True
    with Inr acc pw show ?thesis
      by (simp add: try_endpoint_def print_def requests_post_def post_request_def attempt_lines_def
            is_ok_def text_of_Cons Let_def)
  next
    case False
    with Inr acc pw show ?thesis
      by (simp add: try_endpoint_def print_def requests_post_def post_request_def attempt_lines_def
            is_ok_def is_failure_def text_of_Cons Let_def)
  qed
next
  case (Inl x)
  show ?thesis
  proof (cases x)
    case (RequestException m)
    have "for_endpoints post con p (e # rest) s =
        for_endpoints post con p rest
          (s\<lparr>world := w', attempts := attempts s @ [(post_request (heap s) p e, r0)],
             stdout := stdout s @ line (''Trying endpoint: '' @ e) @
                       line (''Error with '' @ e @ '': '' @ m)\<rparr>)"
      using Inl RequestException acc pw
      by (simp add: try_endpoint_def print_def requests_post_def post_request_def attempt_lines_def
            Let_def)
    moreover have "s\<lparr>world := w', attempts := attempts s @ [(post_request (heap s) p e, r0)],
             stdout := stdout s @ line (''Trying endpoint: '' @ e) @
                       line (''Error with '' @ e @ '': '' @ m)\<rparr> =
        s\<lparr>stdout := stdout s @ text_of (attempt_lines (post_request (heap s) p e, r0)),
                  world := w', attempts := attempts s @ [(post_request (heap s) p e, r0)]\<rparr>"
      using Inl RequestException by (simp add: attempt_lines_def text_of_Cons)
    ultimately show ?thesis
      using Inl RequestException by (simp add: is_ok_def is_failure_def Let_def)
  next
    case (OtherException m)
    with Inl acc pw show ?thesis
      by (simp add: try_endpoint_def print_def requests_post_def post_request_def attempt_lines_def
            is_ok_def is_failure_def text_of_Cons Let_def)
  next
    case (BaseException m)
    with Inl acc pw show ?thesis
      by (simp add: try_endpoint_def print_def requests_post_def post_request_def attempt_lines_def
            is_ok_def is_failure_def text_of_Cons Let_def)
  qed
qed

lemma for_endpoints_skip:
  assumes "n \<le> length es"
    and "list_all (\<lambda>a. is_failure (snd a)) (take n (plan post (post_request (heap s) p) (world s) es))"
    and "accepts con (stdout s) (run_lines (take n (plan post (post_request (heap s) p) (world s) es)))"
  shows "\<exists>sn. for_endpoints post con p es s = for_endpoints post con p (drop n es) sn
      \<and> attempts sn = attempts s @ take n (plan post (post_request (heap s) p) (world s) es)
      \<and> stdout sn = stdout s @ text_of (run_lines (take n (plan post (post_request (heap s) p) (world s) es)))
      \<and> heap sn = heap s \<and> next_addr sn = next_addr s
      \<and> plan post (post_request (heap s) p) (world sn) (drop n es)
          = drop n (plan post (post_request (heap s) p) (world s) es)"
  using assms
proof (induction es arbitrary: n s)
  case Nil
  then show ?case by (intro exI[of _ s]) simp
next
  case (Cons e es)
  show ?case
  proof (cases n)
    case 0
    then show ?thesis by (intro exI[of _ s]) simp
  next
    case (Suc k)
    let ?mk = "post_request (heap s) p"
    obtain r0 w' where pw: "post (world s) (?mk e) = (r0, w')" by force
    have plan: "plan post ?mk (world s) (e # es) = (?mk e, r0) # plan post ?mk w' es"
      using pw by simp
    let ?s1 = "s\<lparr>stdout := stdout s @ text_of (attempt_lines (?mk e, r0)),
                  world := w', attempts := attempts s @ [(?mk e, r0)]\<rparr>"
    have f: "is_failure r0" and fs: "list_all (\<lambda>a. is_failure (snd a)) (take k (plan post ?mk w' es))"
      using Cons.prems(2) Suc plan by simp_all
    have acc: "accepts con (stdout s) (attempt_lines (?mk e, r0))"
      and accs: "accepts con (stdout ?s1) (run_lines (take k (plan post ?mk w' es)))"
      using Cons.prems(3) Suc plan by (simp_all add: accepts_append)
    have nok: "\<not> is_ok r0" using f by (auto simp: is_ok_def is_failure_def split: sum.splits)
    have step: "for_endpoints post con p (e # es) s = for_endpoints post con p es ?s1"
      using for_endpoints_step[where post = post and s = s and p = p and e = e and con = con
          and rest = es, OF pw acc] f nok
      by (simp add: Let_def)
    have k: "k \<le> length es" using Cons.prems(1) Suc by simp
    from Cons.IH[of k ?s1] k fs accs
    obtain sn where sn: "for_endpoints post con p es ?s1 = for_endpoints post con p (drop k es) sn"
      "attempts sn = attempts ?s1 @ take k (plan post ?mk w' es)"
      "stdout sn = stdout ?s1 @ text_of (run_lines (take k (plan post ?mk w' es)))"
      "heap sn = heap s" "next_addr sn = next_addr s"
      "plan post ?mk (world sn) (drop k es) = drop k (plan post ?mk w' es)"
      by auto
    show ?thesis
      using step sn Suc plan by (intro exI[of _ sn]) simp
  qed
qed

subsection \<open>The function body\<close>

lemma entry_state_simps [simp]:
  "heap (entry_state t s) = entry_heap t s"
  "next_addr (entry_state t s) = (case t of None \<Rightarrow> Suc (next_addr s) | Some a \<Rightarrow> next_addr s)"
  "stdout (entry_state t s) = stdout s"
  "world (entry_state t s) = world s"
  "attempts (entry_state t s) = attempts s"
  by (cases t; simp add: entry_state_def entry_heap_def new_list_def)+

lemma save_memory_on_entry:
  "save_memory_on es post con m t s =
     except_Exception con (after_loop con
       (for_endpoints post con (entry_payload m t s) es (entry_state t s)))"
  by (cases t) (simp_all add: save_memory_on_def entry_payload_def entry_state_def new_list_def)

lemma finish_frame:
  assumes "except_Exception con (after_loop con (r0, s0)) = (r, s')"
  shows "heap s' = heap s0" and "next_addr s' = next_addr s0" and "world s' = world s0"
    and "attempts s' = attempts s0" and "\<exists>suf. stdout s' = stdout s0 @ suf"
    and "r = Inr True \<Longrightarrow> r0 = Inr (Some True)"
  using assms
  by (auto simp: after_loop_def except_Exception_def print_def
           split: option.splits prod.splits sum.splits if_splits)

lemma run_inv:
  assumes run: "save_memory_on es post con m t s = (r, s')"
  shows "\<exists>n. n \<le> length es \<and> attempted s s' = take n (answers post m t s es)
      \<and> (r = Inr True \<longrightarrow> 0 < n \<and> is_ok (snd (answers post m t s es ! (n - 1))))
      \<and> (es \<noteq> [] \<and> con (stdout s) (''Trying endpoint: '' @ hd es) = None \<longrightarrow> 0 < n)"
    and "heap s' = entry_heap t s"
    and "next_addr s' = (case t of None \<Rightarrow> Suc (next_addr s) | Some a \<Rightarrow> next_addr s)"
    and "\<exists>suf. stdout s' = stdout s @ suf"
proof -
  let ?p = "entry_payload m t s" and ?s1 = "entry_state t s"
  obtain r0 s0 where loop: "for_endpoints post con ?p es ?s1 = (r0, s0)" by force
  have fin: "except_Exception con (after_loop con (r0, s0)) = (r, s')"
    using run loop by (simp add: save_memory_on_entry)
  note ff = finish_frame[OF fin]
  from for_endpoints_inv[OF loop] obtain n where n: "n \<le> length es"
    "attempts s0 = attempts ?s1 @ take n (plan post (post_request (heap ?s1) ?p) (world ?s1) es)"
    "heap s0 = heap ?s1" "next_addr s0 = next_addr ?s1"
    "\<exists>suf. stdout s0 = stdout ?s1 @ suf"
    "r0 = Inr (Some True) \<longrightarrow>
        0 < n \<and> is_ok (snd (plan post (post_request (heap ?s1) ?p) (world ?s1) es ! (n - 1)))"
    "es \<noteq> [] \<and> con (stdout ?s1) (''Trying endpoint: '' @ hd es) = None \<longrightarrow> 0 < n"
    by blast
  have att: "attempted s s' = take n (answers post m t s es)"
    using n(2) ff(4) by (simp add: attempted_def answers_def)
  have ok: "r = Inr True \<longrightarrow> 0 < n \<and> is_ok (snd (answers post m t s es ! (n - 1)))"
    using n(6) ff(6) by (auto simp: answers_def)
  show "\<exists>n. n \<le> length es \<and> attempted s s' = take n (answers post m t s es)
      \<and> (r = Inr True \<longrightarrow> 0 < n \<and> is_ok (snd (answers post m t s es ! (n - 1))))
      \<and> (es \<noteq> [] \<and> con (stdout s) (''Trying endpoint: '' @ hd es) = None \<longrightarrow> 0 < n)"
    using n(1,7) att ok by (intro exI[of _ n]) simp
  show "heap s' = entry_heap t s" using ff(1) n(3) by simp
  show "next_addr s' = (case t of None \<Rightarrow> Suc (next_addr s) | Some a \<Rightarrow> next_addr s)"
    using ff(2) n(4) by simp
  show "\<exists>suf. stdout s' = stdout s @ suf" using ff(5) n(5) by auto
qed

lemma run_after_failures:
  assumes n: "n \<le> length es"
    and fs: "list_all (\<lambda>a. is_failure (snd a)) (take n (answers post m t s es))"
    and acc: "accepts con (stdout s) (run_lines (take n (answers post m t s es)))"
  shows "\<exists>sn. save_memory_on es post con m t s =
            except_Exception con (after_loop con
              (for_endpoints post con (entry_payload m t s) (drop n es) sn))
      \<and> attempts sn = attempts s @ take n (answers post m t s es)
      \<and> stdout sn = stdout s @ text_of (run_lines (take n (answers post m t s es)))
      \<and> heap sn = entry_heap t s
      \<and> plan post (post_request (heap sn) (entry_payload m t s)) (world sn) (drop n es)
          = drop n (answers post m t s es)"
proof -
  let ?p = "entry_payload m t s" and ?s1 = "entry_state t s"
  have fs': "list_all (\<lambda>a. is_failure (snd a))
      (take n (plan post (post_request (heap ?s1) ?p) (world ?s1) es))"
    using fs by (simp add: answers_def)
  have acc': "accepts con (stdout ?s1)
      (run_lines (take n (plan post (post_request (heap ?s1) ?p) (world ?s1) es)))"
    using acc by (simp add: answers_def)
  from for_endpoints_skip[OF n fs' acc']
  obtain sn where sn:
    "for_endpoints post con ?p es ?s1 = for_endpoints post con ?p (drop n es) sn"
    "attempts sn = attempts ?s1 @ take n (plan post (post_request (heap ?s1) ?p) (world ?s1) es)"
    "stdout sn = stdout ?s1 @ text_of (run_lines (take n (plan post (post_request (heap ?s1) ?p) (world ?s1) es)))"
    "heap sn = heap ?s1"
    "plan post (post_request (heap ?s1) ?p) (world sn) (drop n es)
       = drop n (plan post (post_request (heap ?s1) ?p) (world ?s1) es)"
    by blast
  show ?thesis
    using sn by (intro exI[of _ sn]) (simp add: save_memory_on_entry answers_def)
qed

lemma plan_Cons_post:
  "plan post mk w (e # es) = a # rest \<Longrightarrow> \<exists>w'. post w (mk e) = (snd a, w') \<and> fst a = mk e \<and> plan post mk w' es = rest"
  by (auto split: prod.splits)

lemma run_at:
  assumes j: "j < length es"
    and fs: "list_all (\<lambda>a. is_failure (snd a)) (take j (answers post m t s es))"
    and acc: "accepts con (stdout s) (run_lines (take (Suc j) (answers post m t s es)))"
  shows "\<exists>sj. save_memory_on es post con m t s =
            except_Exception con (after_loop con
              (if is_ok (snd (answers post m t s es ! j)) then (Inr (Some True), sj)
               else if is_failure (snd (answers post m t s es ! j))
                 then for_endpoints post con (entry_payload m t s) (drop (Suc j) es) sj
               else (Inl (projl (snd (answers post m t s es ! j))), sj)))
      \<and> attempts sj = attempts s @ take (Suc j) (answers post m t s es)
      \<and> stdout sj = stdout s @ text_of (run_lines (take (Suc j) (answers post m t s es)))
      \<and> heap sj = entry_heap t s
      \<and> plan post (post_request (heap sj) (entry_payload m t s)) (world sj) (drop (Suc j) es)
          = drop (Suc j) (answers post m t s es)"
proof -
  let ?A = "answers post m t s es" and ?p = "entry_payload m t s"
  have lenA: "length ?A = length es" by (simp add: answers_def)
  have tk: "take (Suc j) ?A = take j ?A @ [?A ! j]"
    using j lenA by (simp add: take_Suc_conv_app_nth)
  have acc1: "accepts con (stdout s) (run_lines (take j ?A))"
    and acc2: "accepts con (stdout s @ text_of (run_lines (take j ?A))) (attempt_lines (?A ! j))"
    using acc unfolding tk by (simp_all add: accepts_append)
  from run_after_failures[OF less_imp_le[OF j] fs acc1]
  obtain sn where sn:
    "save_memory_on es post con m t s =
       except_Exception con (after_loop con (for_endpoints post con ?p (drop j es) sn))"
    "attempts sn = attempts s @ take j ?A"
    "stdout sn = stdout s @ text_of (run_lines (take j ?A))"
    "heap sn = entry_heap t s"
    "plan post (post_request (heap sn) ?p) (world sn) (drop j es) = drop j ?A"
    by blast
  have dj: "drop j es = es ! j # drop (Suc j) es" using j by (simp add: Cons_nth_drop_Suc)
  have dA: "drop j ?A = ?A ! j # drop (Suc j) ?A" using j lenA by (simp add: Cons_nth_drop_Suc)
  have "plan post (post_request (heap sn) ?p) (world sn) (es ! j # drop (Suc j) es)
      = ?A ! j # drop (Suc j) ?A"
    using sn(5) dj dA by simp
  from plan_Cons_post[OF this] obtain w' where w':
    "post (world sn) (post_request (heap sn) ?p (es ! j)) = (snd (?A ! j), w')"
    "fst (?A ! j) = post_request (heap sn) ?p (es ! j)"
    "plan post (post_request (heap sn) ?p) w' (drop (Suc j) es) = drop (Suc j) ?A"
    by blast
  have a: "(post_request (heap sn) ?p (es ! j), snd (?A ! j)) = ?A ! j"
    using w'(2) by (metis prod.collapse)
  have acc3: "accepts con (stdout sn) (attempt_lines (post_request (heap sn) ?p (es ! j), snd (?A ! j)))"
    using acc2 sn(3) a by simp
  let ?sj = "sn\<lparr>stdout := stdout sn @ text_of (attempt_lines (?A ! j)),
                 world := w', attempts := attempts sn @ [?A ! j]\<rparr>"
  have step: "for_endpoints post con ?p (drop j es) sn =
      (if is_ok (snd (?A ! j)) then (Inr (Some True), ?sj)
       else if is_failure (snd (?A ! j)) then for_endpoints post con ?p (drop (Suc j) es) ?sj
       else (Inl (projl (snd (?A ! j))), ?sj))"
    unfolding dj
    using for_endpoints_step[where post = post and s = sn and p = ?p and e = "es ! j" and con = con
        and rest = "drop (Suc j) es", OF w'(1) acc3]
    by (simp add: Let_def a)
  show ?thesis
    using sn w'(3) tk
    by (intro exI[of _ ?sj]) (simp add: step if_distrib[of "after_loop con"] if_distrib[of "except_Exception con"])
qed

lemma run_continues:
  assumes run: "save_memory_on es post con m t s = (r, s')"
    and n: "n \<le> length es"
    and fs: "list_all (\<lambda>a. is_failure (snd a)) (take n (answers post m t s es))"
    and acc: "accepts con (stdout s) (run_lines (take n (answers post m t s es)))"
  shows "\<exists>k suf. n \<le> k \<and> k \<le> length es \<and> attempted s s' = take k (answers post m t s es)
      \<and> stdout s' = stdout s @ text_of (run_lines (take n (answers post m t s es))) @ suf
      \<and> (n < length es \<and>
           con (stdout s @ text_of (run_lines (take n (answers post m t s es))))
               (''Trying endpoint: '' @ es ! n) = None \<longrightarrow> n < k)"
proof -
  let ?A = "answers post m t s es" and ?p = "entry_payload m t s"
  have lenA: "length ?A = length es" by (simp add: answers_def)
  from run_after_failures[OF n fs acc] obtain sn where sn:
    "save_memory_on es post con m t s =
       except_Exception con (after_loop con (for_endpoints post con ?p (drop n es) sn))"
    "attempts sn = attempts s @ take n ?A"
    "stdout sn = stdout s @ text_of (run_lines (take n ?A))"
    "heap sn = entry_heap t s"
    "plan post (post_request (heap sn) ?p) (world sn) (drop n es) = drop n ?A"
    by blast
  obtain r0 s0 where loop: "for_endpoints post con ?p (drop n es) sn = (r0, s0)" by force
  have fin: "except_Exception con (after_loop con (r0, s0)) = (r, s')"
    using run sn(1) loop by simp
  note ff = finish_frame[OF fin]
  from for_endpoints_inv[OF loop] obtain k where k: "k \<le> length (drop n es)"
    "attempts s0 = attempts sn @ take k (plan post (post_request (heap sn) ?p) (world sn) (drop n es))"
    "\<exists>suf. stdout s0 = stdout sn @ suf"
    "drop n es \<noteq> [] \<and> con (stdout sn) (''Trying endpoint: '' @ hd (drop n es)) = None \<longrightarrow> 0 < k"
    by blast
  from k(3) ff(5) obtain suf where suf: "stdout s' = stdout sn @ suf" by auto
  have "take n ?A @ take k (drop n ?A) = take (n + k) ?A"
    by (simp add: take_add)
  then have att: "attempted s s' = take (n + k) ?A"
    using k(2) sn(2,5) ff(4) by (simp add: attempted_def)
  have hd: "n < length es \<Longrightarrow> hd (drop n es) = es ! n" by (simp add: hd_drop_conv_nth)
  have prog: "n < length es \<and>
      con (stdout s @ text_of (run_lines (take n ?A))) (''Trying endpoint: '' @ es ! n) = None
        \<longrightarrow> n < n + k"
    using k(4) sn(3) hd by auto
  show ?thesis
    using k(1) n att suf sn(3) prog
    by (intro exI[of _ "n + k"] exI[of _ suf]) auto
qed

lemma run_ok_at:
  assumes j: "j < length es"
    and fs: "list_all (\<lambda>a. is_failure (snd a)) (take j (answers post m t s es))"
    and ok: "is_ok (snd (answers post m t s es ! j))"
    and acc: "accepts con (stdout s) (run_lines (take (Suc j) (answers post m t s es)))"
  shows "fst (save_memory_on es post con m t s) = Inr True"
    and "attempted s (snd (save_memory_on es post con m t s)) = take (Suc j) (answers post m t s es)"
    and "stdout (snd (save_memory_on es post con m t s)) =
           stdout s @ text_of (run_lines (take (Suc j) (answers post m t s es)))"
proof -
  from run_at[OF j fs acc] ok obtain sj where sj:
    "save_memory_on es post con m t s = except_Exception con (after_loop con (Inr (Some True), sj))"
    "attempts sj = attempts s @ take (Suc j) (answers post m t s es)"
    "stdout sj = stdout s @ text_of (run_lines (take (Suc j) (answers post m t s es)))"
    by auto
  then have eq: "save_memory_on es post con m t s = (Inr True, sj)"
    by (simp add: after_loop_def except_Exception_def)
  show "fst (save_memory_on es post con m t s) = Inr True" using eq by simp
  show "attempted s (snd (save_memory_on es post con m t s)) = take (Suc j) (answers post m t s es)"
    using eq sj(2) by (simp add: attempted_def)
  show "stdout (snd (save_memory_on es post con m t s)) =
           stdout s @ text_of (run_lines (take (Suc j) (answers post m t s es)))"
    using eq sj(3) by simp
qed


lemma run_all_fail:
  assumes fs: "list_all (\<lambda>a. is_failure (snd a)) (answers post m t s es)"
    and acc: "accepts con (stdout s)
                (run_lines (answers post m t s es) @ [''Failed to save memory to any endpoint''])"
  shows "fst (save_memory_on es post con m t s) = Inr False"
    and "attempted s (snd (save_memory_on es post con m t s)) = answers post m t s es"
    and "stdout (snd (save_memory_on es post con m t s)) =
           stdout s @ text_of (run_lines (answers post m t s es) @ [''Failed to save memory to any endpoint''])"
proof -
  let ?A = "answers post m t s es"
  have lenA: "length ?A = length es" by (simp add: answers_def)
  have acc1: "accepts con (stdout s) (run_lines (take (length es) ?A))"
    and acc2: "con (stdout s @ text_of (run_lines ?A)) ''Failed to save memory to any endpoint'' = None"
    using acc lenA by (simp_all add: accepts_append)
  have fs': "list_all (\<lambda>a. is_failure (snd a)) (take (length es) ?A)" using fs lenA by simp
  from run_after_failures[OF le_refl fs' acc1] lenA obtain sn where sn:
    "save_memory_on es post con m t s = except_Exception con (after_loop con (Inr None, sn))"
    "attempts sn = attempts s @ ?A"
    "stdout sn = stdout s @ text_of (run_lines ?A)"
    by auto
  have eq: "save_memory_on es post con m t s =
      (Inr False, sn\<lparr>stdout := stdout sn @ line ''Failed to save memory to any endpoint''\<rparr>)"
    using sn acc2 by (simp add: after_loop_def except_Exception_def print_def)
  show "fst (save_memory_on es post con m t s) = Inr False" using eq by simp
  show "attempted s (snd (save_memory_on es post con m t s)) = ?A"
    using eq sn(2) by (simp add: attempted_def)
  show "stdout (snd (save_memory_on es post con m t s)) =
           stdout s @ text_of (run_lines ?A @ [''Failed to save memory to any endpoint''])"
    using eq sn(3) by (simp add: text_of_Cons)
qed

lemma urls_of_answers: "map (\<lambda>a. url (fst a)) (take k (answers post m t s es)) = take k es"
proof -
  have "map (\<lambda>a. url (fst a)) (answers post m t s es) = map url (map fst (answers post m t s es))"
    by simp
  also have "\<dots> = es" by (simp add: answers_def comp_def)
  finally show ?thesis by (simp add: take_map[symmetric])
qed

text \<open>The definitions that evaluate a run on a concrete network and output channel.\<close>

lemmas run_defs =
  save_memory_def save_memory_on_def endpoints_def after_loop_def except_Exception_def
  try_endpoint_def requests_post_def print_def new_list_def payload_json_def init_state_def
  attempted_def line_def text_of_def

lemmas plan_defs =
  answers_def post_request_def entry_heap_def entry_payload_def payload_json_def init_state_def
  endpoints_def run_lines_def attempt_lines_def

subsection \<open>Stopping at the first success\<close>

text \<open>
  Claim C1, as amended. For every endpoint list of length \<open>N\<close>: if the endpoint at
  position \<open>k\<close>, counted from 1, answers with status code 200, every endpoint before
  it answers with another status code or fails with a \<open>RequestException\<close>, and the
  output channel accepts the texts printed on the way, then the function attempts
  exactly the endpoints at positions 1 to \<open>k\<close>, in the listed order and with the
  answers of the plan, none of the later ones, and returns \<open>True\<close>.
\<close>

theorem first_success_stops:
  assumes k: "1 \<le> k" "k \<le> length es"
    and ok: "is_ok (snd (answers post m t s es ! (k - 1)))"
    and before: "list_all (\<lambda>a. is_failure (snd a)) (take (k - 1) (answers post m t s es))"
    and out: "accepts con (stdout s) (run_lines (take k (answers post m t s es)))"
  shows "fst (save_memory_on es post con m t s) = Inr True \<and>
         attempted s (snd (save_memory_on es post con m t s)) = take k (answers post m t s es) \<and>
         map (\<lambda>a. url (fst a)) (attempted s (snd (save_memory_on es post con m t s))) = take k es"
proof -
  have j: "k - 1 < length es" and sk: "Suc (k - 1) = k" using k by simp_all
  have out': "accepts con (stdout s) (run_lines (take (Suc (k - 1)) (answers post m t s es)))"
    using out sk by simp
  note r = run_ok_at[OF j before ok out']
  show ?thesis using r(1) r(2) sk by (simp add: urls_of_answers)
qed

text \<open>The network that refuses twice and then accepts: three of the six endpoints are tried.\<close>

theorem first_success_stops_witness:
  "fst (save_memory third_accepts reliable ''note'' None init_state) = Inr True \<and>
   map (\<lambda>a. url (fst a))
       (attempted init_state (snd (save_memory third_accepts reliable ''note'' None init_state)))
     = [''http://localhost:8050/api/save_memory'',
        ''http://localhost:8051/api/save_memory'',
        ''http://localhost:8050/sse/save_memory'']"
proof -
  let ?A = "answers third_accepts ''note'' None init_state endpoints"
  have k: "(1::nat) \<le> 3" "3 \<le> length endpoints" by (simp_all add: endpoints_def)
  have ok: "is_ok (snd (?A ! (3 - 1)))"
    by (simp add: plan_defs third_accepts_def is_ok_def)
  have before: "list_all (\<lambda>a. is_failure (snd a)) (take (3 - 1) ?A)"
    by (simp add: plan_defs third_accepts_def is_failure_def)
  note w = first_success_stops[OF k ok before accepts_reliable]
  show ?thesis
    using w[THEN conjunct1] w[THEN conjunct2, THEN conjunct2]
    by (simp add: save_memory_def endpoints_def)
qed

text \<open>
  The statement fails for a success status in general and for an output channel that
  raises. A network that answers every request with 204 (No Content) has its first
  success-class answer at position 1, yet all six endpoints are tried and the result
  is \<open>False\<close>. A network that answers the first request with 200 and a body that
  the ASCII channel cannot encode makes the \<open>print\<close> of the body raise inside the
  \<open>try\<close>; the catch-all returns \<open>False\<close> after a status 200.
\<close>

theorem first_success_counterexample:
  "fst (save_memory (respond_with 204 []) reliable ''note'' None init_state) = Inr False \<and>
   map snd (attempted init_state (snd (save_memory (respond_with 204 []) reliable ''note'' None init_state)))
     = replicate 6 (Inr \<lparr>status_code = 204, resp_text = []\<rparr>) \<and>
   fst (save_memory (respond_with 200 [CHR 0xC3, CHR 0xA9]) ascii_only ''note'' None init_state)
     = Inr False \<and>
   map snd (attempted init_state
              (snd (save_memory (respond_with 200 [CHR 0xC3, CHR 0xA9]) ascii_only ''note'' None init_state)))
     = [Inr \<lparr>status_code = 200, resp_text = [CHR 0xC3, CHR 0xA9]\<rparr>]"
  by (simp add: run_defs respond_with_def reliable_def ascii_only_def numeral_eq_Suc)

subsection \<open>Exhausting the list\<close>

text \<open>
  Claim C2, as amended. For every endpoint list of length \<open>N\<close>: if every endpoint
  answers with a status code other than 200 or fails with a \<open>RequestException\<close>, and
  the output channel accepts the texts printed, the closing line included, then the
  function returns \<open>False\<close> and has attempted all \<open>N\<close> endpoints, each once, in the
  listed order.
\<close>

theorem failures_exhaust_list:
  assumes all: "list_all (\<lambda>a. is_failure (snd a)) (answers post m t s es)"
    and out: "accepts con (stdout s)
                (run_lines (answers post m t s es) @ [''Failed to save memory to any endpoint''])"
  shows "fst (save_memory_on es post con m t s) = Inr False \<and>
         attempted s (snd (save_memory_on es post con m t s)) = answers post m t s es \<and>
         map (\<lambda>a. url (fst a)) (attempted s (snd (save_memory_on es post con m t s))) = es"
proof -
  note r = run_all_fail[OF all out]
  have "map (\<lambda>a. url (fst a)) (take (length es) (answers post m t s es)) = take (length es) es"
    by (rule urls_of_answers)
  then have "map (\<lambda>a. url (fst a)) (answers post m t s es) = es" by (simp add: answers_def)
  then show ?thesis using r(1) r(2) by simp
qed

text \<open>The network that refuses every connection: all six endpoints are tried.\<close>

theorem failures_exhaust_list_witness:
  "fst (save_memory (raises (RequestException ''connection refused'')) reliable ''note'' None init_state)
     = Inr False \<and>
   map (\<lambda>a. url (fst a))
       (attempted init_state
          (snd (save_memory (raises (RequestException ''connection refused'')) reliable ''note'' None
                  init_state)))
     = endpoints"
proof -
  have all: "list_all (\<lambda>a. is_failure (snd a))
      (answers (raises (RequestException ''connection refused'')) ''note'' None init_state endpoints)"
    by (simp add: plan_defs raises_def is_failure_def)
  note w = failures_exhaust_list[OF all accepts_reliable]
  show ?thesis
    using w[THEN conjunct1] w[THEN conjunct2, THEN conjunct2]
    by (simp add: save_memory_def)
qed

text \<open>
  Without the amendment the statement fails. When the first request raises an exception
  that is not a \<open>RequestException\<close>, the inner handler does not catch it, the outer
  one does, and the function returns \<open>False\<close> after one attempt out of six, although
  no attempt has yielded a success status. The same happens when the request fails with
  a \<open>RequestException\<close> whose text the output channel cannot encode: the \<open>print\<close> of
  the \<open>except\<close> clause raises and the loop is left.
\<close>

theorem unexpected_error_counterexample:
  "fst (save_memory (raises (OtherException ''boom'')) reliable ''note'' None init_state) = Inr False \<and>
   map snd (attempted init_state
              (snd (save_memory (raises (OtherException ''boom'')) reliable ''note'' None init_state)))
     = [Inl (OtherException ''boom'')] \<and>
   \<not> is_ok (Inl (OtherException ''boom'')) \<and>
   fst (save_memory (raises (RequestException [CHR 0xC3, CHR 0xA9])) ascii_only ''note'' None init_state)
     = Inr False \<and>
   map snd (attempted init_state
              (snd (save_memory (raises (RequestException [CHR 0xC3, CHR 0xA9])) ascii_only ''note'' None
                      init_state)))
     = [Inl (RequestException [CHR 0xC3, CHR 0xA9])] \<and>
   length endpoints = 6"
  by (simp add: run_defs raises_def reliable_def ascii_only_def is_ok_def)

subsection \<open>What counts as success\<close>

lemma take_eq_lengths:
  "take a xs = take b xs \<Longrightarrow> a \<le> length xs \<Longrightarrow> b \<le> length xs \<Longrightarrow> a = b"
  by (metis length_take min.absorb2)

lemma fst_plan_nth: "j < length es \<Longrightarrow> fst (plan post mk w es ! j) = mk (es ! j)"
proof -
  assume j: "j < length es"
  have "fst (plan post mk w es ! j) = map fst (plan post mk w es) ! j"
    using j by (simp del: map_fst_plan)
  then show ?thesis using j by simp
qed

lemma url_answers_nth: "j < length es \<Longrightarrow> url (fst (answers post m t s es ! j)) = es ! j"
  by (simp add: answers_def fst_plan_nth)

lemma run_lines_take_Suc:
  "j < length es \<Longrightarrow>
     run_lines (take (Suc j) (answers post m t s es)) =
       run_lines (take j (answers post m t s es)) @ attempt_lines (answers post m t s es ! j)"
  by (simp add: take_Suc_conv_app_nth answers_def)

text \<open>
  Claim C3, as amended. Take an attempt whose request completes with a response, the
  endpoints before it having failed, on an output channel that accepts the texts
  printed up to and including this attempt. The attempt is treated as overall success
  (the function returns \<open>True\<close> and this attempt is the last one made) if and only if
  the status code of the response is exactly 200. On that success the output ends with
  the text \<open>Trying endpoint: \<close> and the endpoint, the text
  \<open>Memory saved successfully via \<close> and the endpoint, and the text \<open>Response: \<close>
  and the raw response body, each followed by a line feed.
\<close>

theorem success_is_status_200:
  assumes j: "j < length es"
    and resp: "snd (answers post m t s es ! j) = Inr response"
    and before: "list_all (\<lambda>a. is_failure (snd a)) (take j (answers post m t s es))"
    and out: "accepts con (stdout s) (run_lines (take (Suc j) (answers post m t s es)))"
  shows "(status_code response = 200) =
           (fst (save_memory_on es post con m t s) = Inr True \<and>
            attempted s (snd (save_memory_on es post con m t s)) = take (Suc j) (answers post m t s es)) \<and>
         (status_code response = 200 \<longrightarrow>
            stdout (snd (save_memory_on es post con m t s)) =
              stdout s @ text_of (run_lines (take j (answers post m t s es))) @
              text_of [''Trying endpoint: '' @ es ! j,
                       ''Memory saved successfully via '' @ es ! j,
                       ''Response: '' @ resp_text response])"
proof -
  let ?A = "answers post m t s es" and ?run = "save_memory_on es post con m t s"
  have lenA: "length ?A = length es" by (simp add: answers_def)
  have ok_iff: "is_ok (snd (?A ! j)) = (status_code response = 200)"
    using resp by (simp add: is_ok_def)
  have fwd: "fst ?run = Inr True \<and> attempted s (snd ?run) = take (Suc j) ?A"
    if c: "status_code response = 200"
    using run_ok_at(1,2)[OF j before _ out] c ok_iff by simp
  have bwd: "status_code response = 200"
    if r: "fst ?run = Inr True" and a: "attempted s (snd ?run) = take (Suc j) ?A"
  proof -
    have run: "?run = (fst ?run, snd ?run)" by simp
    from run_inv(1)[OF run] r obtain n where n: "n \<le> length es"
      "attempted s (snd ?run) = take n ?A" "0 < n" "is_ok (snd (?A ! (n - 1)))"
      by auto
    have "n = Suc j"
      using take_eq_lengths[of n ?A "Suc j"] n(1,2) a j lenA by simp
    with n(4) ok_iff show ?thesis by simp
  qed
  have lines: "attempt_lines (?A ! j) =
      [''Trying endpoint: '' @ es ! j, ''Memory saved successfully via '' @ es ! j,
       ''Response: '' @ resp_text response]"
    if c: "status_code response = 200"
    using resp c url_answers_nth[OF j, of post m t s] by (simp add: attempt_lines_def)
  have outp: "stdout (snd ?run) =
      stdout s @ text_of (run_lines (take j ?A)) @
      text_of [''Trying endpoint: '' @ es ! j, ''Memory saved successfully via '' @ es ! j,
               ''Response: '' @ resp_text response]"
    if c: "status_code response = 200"
    using run_ok_at(3)[OF j before _ out] c ok_iff lines[OF c] run_lines_take_Suc[OF j, of post m t s]
    by simp
  show ?thesis using fwd bwd outp by blast
qed

text \<open>The third endpoint answers 200 with the body \<open>saved\<close>.\<close>

theorem success_is_status_200_witness:
  "fst (save_memory third_accepts reliable ''note'' None init_state) = Inr True \<and>
   stdout (snd (save_memory third_accepts reliable ''note'' None init_state)) =
     text_of [''Trying endpoint: http://localhost:8050/api/save_memory'',
              ''Error with http://localhost:8050/api/save_memory: connection refused'',
              ''Trying endpoint: http://localhost:8051/api/save_memory'',
              ''Error with http://localhost:8051/api/save_memory: connection refused''] @
     text_of [''Trying endpoint: http://localhost:8050/sse/save_memory'',
              ''Memory saved successfully via http://localhost:8050/sse/save_memory'',
              ''Response: saved'']"
proof -
  let ?A = "answers third_accepts ''note'' None init_state endpoints"
  have j: "2 < length endpoints" by (simp add: endpoints_def)
  have resp: "snd (?A ! 2) = Inr \<lparr>status_code = 200, resp_text = ''saved''\<rparr>"
    by (simp add: plan_defs third_accepts_def)
  have before: "list_all (\<lambda>a. is_failure (snd a)) (take 2 ?A)"
    by (simp add: plan_defs third_accepts_def is_failure_def)
  have lines: "run_lines (take 2 ?A) =
      [''Trying endpoint: http://localhost:8050/api/save_memory'',
       ''Error with http://localhost:8050/api/save_memory: connection refused'',
       ''Trying endpoint: http://localhost:8051/api/save_memory'',
       ''Error with http://localhost:8051/api/save_memory: connection refused'']"
    by (simp add: plan_defs third_accepts_def)
  have e: "endpoints ! 2 = ''http://localhost:8050/sse/save_memory''" by (simp add: endpoints_def)
  have o: "stdout init_state = []" by (simp add: init_state_def)
  note w = success_is_status_200[OF j resp before accepts_reliable]
  show ?thesis
    using w[THEN conjunct1] w[THEN conjunct2] unfolding lines e o
    by (simp add: save_memory_def)
qed

text \<open>
  The test in the source is \<open>response.status_code == 200\<close>, not membership in the
  success class: a network that answers every request with 201 (Created) makes the
  function try all six endpoints and return \<open>False\<close>. And a status 200 is not
  enough when the body cannot be printed: the function then returns \<open>False\<close>, and
  the output ends with the line of the catch-all instead of the response body.
\<close>

theorem success_class_counterexample:
  "fst (save_memory (respond_with 201 ''created'') reliable ''note'' None init_state) = Inr False \<and>
   map snd (attempted init_state
              (snd (save_memory (respond_with 201 ''created'') reliable ''note'' None init_state)))
     = replicate 6 (Inr \<lparr>status_code = 201, resp_text = ''created''\<rparr>) \<and>
   fst (save_memory (respond_with 200 [CHR 0xC3, CHR 0xA9, CHR ''t'', CHR 0xC3, CHR 0xA9]) ascii_only
          ''note'' None init_state) = Inr False \<and>
   stdout (snd (save_memory (respond_with 200 [CHR 0xC3, CHR 0xA9, CHR ''t'', CHR 0xC3, CHR 0xA9])
                  ascii_only ''note'' None init_state)) =
     text_of [''Trying endpoint: http://localhost:8050/api/save_memory'',
              ''Memory saved successfully via http://localhost:8050/api/save_memory'',
              ''Error: ascii codec cannot encode character'']"
  by (simp add: run_defs respond_with_def reliable_def ascii_only_def numeral_eq_Suc)

subsection \<open>Failed attempts\<close>

lemma request_error_failure: "is_request_error x \<Longrightarrow> is_failure x"
  by (auto simp: is_request_error_def is_failure_def split: sum.splits exc.splits)

lemma request_error_lines: "is_request_error (snd a) \<Longrightarrow> attempt_lines a = error_lines a"
  by (auto simp: is_request_error_def attempt_lines_def error_lines_def split: sum.splits exc.splits)

lemma request_error_run_lines:
  "list_all (\<lambda>a. is_request_error (snd a)) tr \<Longrightarrow> run_lines tr = concat (map error_lines tr)"
  by (induction tr) (simp_all add: request_error_lines)

lemma failures_take_Suc:
  assumes "j < length es"
    and "list_all (\<lambda>a. is_failure (snd a)) (take j (answers post m t s es))"
    and "is_failure (snd (answers post m t s es ! j))"
  shows "list_all (\<lambda>a. is_failure (snd a)) (take (Suc j) (answers post m t s es))"
  using assms by (simp add: take_Suc_conv_app_nth answers_def)

text \<open>
  Claim C4, as amended, in three parts. First: when the endpoints up to position
  \<open>j\<close> all fail, by a \<open>RequestException\<close> or by a response with a status code other
  than 200, there is a next endpoint, and the output channel accepts the texts printed
  so far and the announcement of the next attempt, then the next endpoint is attempted.
  Second: when the attempt at position \<open>i\<close> fails with a \<open>RequestException\<close> and the
  output channel accepts the texts printed up to it, the failure is recorded: the output
  contains the line \<open>Trying endpoint: \<close> with the endpoint, followed by the line
  \<open>Error with \<close>, the endpoint, a colon and the text of the error. Third: when all
  endpoints fail with a \<open>RequestException\<close> and the output channel accepts the texts
  printed, the function returns \<open>False\<close>, all endpoints are attempted in order, and
  the output is exactly these two lines for each endpoint, each failure once, followed
  by \<open>Failed to save memory to any endpoint\<close>. What is printed for a response with
  another status code than 200 is not part of the statement.
\<close>

theorem failure_moves_on:
  "(Suc j < length es \<and>
    list_all (\<lambda>a. is_failure (snd a)) (take (Suc j) (answers post m t s es)) \<and>
    accepts con (stdout s)
      (run_lines (take (Suc j) (answers post m t s es)) @ [''Trying endpoint: '' @ es ! Suc j])
    \<longrightarrow> take (Suc (Suc j)) (attempted s (snd (save_memory_on es post con m t s)))
          = take (Suc (Suc j)) (answers post m t s es)) \<and>
   (i < length es \<and>
    list_all (\<lambda>a. is_failure (snd a)) (take i (answers post m t s es)) \<and>
    snd (answers post m t s es ! i) = Inl (RequestException e) \<and>
    accepts con (stdout s) (run_lines (take (Suc i) (answers post m t s es)))
    \<longrightarrow> (\<exists>pre suf. stdout (snd (save_memory_on es post con m t s)) =
          pre @ text_of [''Trying endpoint: '' @ es ! i, ''Error with '' @ es ! i @ '': '' @ e] @ suf)) \<and>
   (list_all (\<lambda>a. is_request_error (snd a)) (answers post m t s es) \<and>
    accepts con (stdout s)
      (concat (map error_lines (answers post m t s es)) @ [''Failed to save memory to any endpoint''])
    \<longrightarrow> fst (save_memory_on es post con m t s) = Inr False \<and>
        attempted s (snd (save_memory_on es post con m t s)) = answers post m t s es \<and>
        stdout (snd (save_memory_on es post con m t s)) =
          stdout s @ text_of (concat (map error_lines (answers post m t s es)) @
                              [''Failed to save memory to any endpoint'']))"
proof -
  let ?A = "answers post m t s es" and ?run = "save_memory_on es post con m t s"
  have run: "?run = (fst ?run, snd ?run)" by simp
  have lenA: "length ?A = length es" by (simp add: answers_def)
  have a: "take (Suc (Suc j)) (attempted s (snd ?run)) = take (Suc (Suc j)) ?A"
    if j: "Suc j < length es"
      and fs: "list_all (\<lambda>a. is_failure (snd a)) (take (Suc j) ?A)"
      and acc: "accepts con (stdout s) (run_lines (take (Suc j) ?A) @ [''Trying endpoint: '' @ es ! Suc j])"
  proof -
    have acc1: "accepts con (stdout s) (run_lines (take (Suc j) ?A))"
      and acc2: "con (stdout s @ text_of (run_lines (take (Suc j) ?A)))
                     (''Trying endpoint: '' @ es ! Suc j) = None"
      using acc by (simp_all add: accepts_append)
    from run_continues[OF run less_imp_le[OF j] fs acc1] j acc2
    obtain k where k: "Suc j < k" "attempted s (snd ?run) = take k ?A" by auto
    then show ?thesis by (simp add: min_def)
  qed
  have b: "\<exists>pre suf. stdout (snd ?run) =
      pre @ text_of [''Trying endpoint: '' @ es ! i, ''Error with '' @ es ! i @ '': '' @ e] @ suf"
    if i: "i < length es"
      and fs: "list_all (\<lambda>a. is_failure (snd a)) (take i ?A)"
      and e: "snd (?A ! i) = Inl (RequestException e)"
      and acc: "accepts con (stdout s) (run_lines (take (Suc i) ?A))"
  proof -
    have f: "is_failure (snd (?A ! i))" using e by (simp add: is_failure_def)
    have fs': "list_all (\<lambda>a. is_failure (snd a)) (take (Suc i) ?A)"
      using failures_take_Suc[OF i fs f] .
    have lines: "attempt_lines (?A ! i) =
        [''Trying endpoint: '' @ es ! i, ''Error with '' @ es ! i @ '': '' @ e]"
      using e url_answers_nth[OF i, of post m t s] by (simp add: attempt_lines_def)
    from run_continues[OF run Suc_leI[OF i] fs' acc]
    obtain suf where "stdout (snd ?run) = stdout s @ text_of (run_lines (take (Suc i) ?A)) @ suf"
      by auto
    then have "stdout (snd ?run) =
        (stdout s @ text_of (run_lines (take i ?A))) @
        text_of [''Trying endpoint: '' @ es ! i, ''Error with '' @ es ! i @ '': '' @ e] @ suf"
      using run_lines_take_Suc[OF i, of post m t s] lines by simp
    then show ?thesis by blast
  qed
  have c: "fst ?run = Inr False \<and> attempted s (snd ?run) = ?A \<and>
      stdout (snd ?run) =
        stdout s @ text_of (concat (map error_lines ?A) @ [''Failed to save memory to any endpoint''])"
    if all: "list_all (\<lambda>a. is_request_error (snd a)) ?A"
      and acc: "accepts con (stdout s)
                  (concat (map error_lines ?A) @ [''Failed to save memory to any endpoint''])"
  proof -
    have fs: "list_all (\<lambda>a. is_failure (snd a)) ?A"
      using all by (simp add: list_all_iff request_error_failure)
    have rl: "run_lines ?A = concat (map error_lines ?A)"
      using all by (rule request_error_run_lines)
    have acc': "accepts con (stdout s) (run_lines ?A @ [''Failed to save memory to any endpoint''])"
      using acc rl by simp
    from run_all_fail[OF fs acc'] rl show ?thesis by simp
  qed
  show ?thesis using a b c by blast
qed

text \<open>
  On the network that alternates between refusing and answering 404 the third endpoint
  is reached and its refusal recorded; on the network where every request times out
  the output has two lines per endpoint and the closing line.
\<close>

theorem failure_moves_on_witness:
  "map snd (take 3 (attempted init_state (snd (save_memory flaky reliable ''note'' None init_state)))) =
     [Inl (RequestException ''connection refused''),
      Inr \<lparr>status_code = 404, resp_text = ''not found''\<rparr>,
      Inl (RequestException ''connection refused'')] \<and>
   (\<exists>pre suf. stdout (snd (save_memory flaky reliable ''note'' None init_state)) =
      pre @ text_of [''Trying endpoint: http://localhost:8050/sse/save_memory'',
                     ''Error with http://localhost:8050/sse/save_memory: connection refused''] @ suf) \<and>
   stdout (snd (save_memory (raises (RequestException ''timed out'')) reliable ''note'' None init_state)) =
     text_of
       [''Trying endpoint: http://localhost:8050/api/save_memory'',
        ''Error with http://localhost:8050/api/save_memory: timed out'',
        ''Trying endpoint: http://localhost:8051/api/save_memory'',
        ''Error with http://localhost:8051/api/save_memory: timed out'',
        ''Trying endpoint: http://localhost:8050/sse/save_memory'',
        ''Error with http://localhost:8050/sse/save_memory: timed out'',
        ''Trying endpoint: http://localhost:8051/sse/save_memory'',
        ''Error with http://localhost:8051/sse/save_memory: timed out'',
        ''Trying endpoint: http://localhost:8050/mem0/save_memory'',
        ''Error with http://localhost:8050/mem0/save_memory: timed out'',
        ''Trying endpoint: http://localhost:8051/mem0/save_memory'',
        ''Error with http://localhost:8051/mem0/save_memory: timed out'',
        ''Failed to save memory to any endpoint'']"
proof -
  let ?A = "answers flaky ''note'' None init_state endpoints"
  let ?B = "answers (raises (RequestException ''timed out'')) ''note'' None init_state endpoints"
  have j: "Suc 1 < length endpoints" and i: "2 < length endpoints" by (simp_all add: endpoints_def)
  have fs2: "list_all (\<lambda>a. is_failure (snd a)) (take (Suc 1) ?A)"
    by (simp add: plan_defs flaky_def is_failure_def)
  have fs2': "list_all (\<lambda>a. is_failure (snd a)) (take 2 ?A)"
    by (simp add: plan_defs flaky_def is_failure_def)
  have e: "snd (?A ! 2) = Inl (RequestException ''connection refused'')"
    by (simp add: plan_defs flaky_def)
  have A3: "map snd (take (Suc (Suc 1)) ?A) =
     [Inl (RequestException ''connection refused''),
      Inr \<lparr>status_code = 404, resp_text = ''not found''\<rparr>,
      Inl (RequestException ''connection refused'')]"
    by (simp add: plan_defs flaky_def)
  have e2: "endpoints ! 2 = ''http://localhost:8050/sse/save_memory''" by (simp add: endpoints_def)
  have all: "list_all (\<lambda>a. is_request_error (snd a)) ?B"
    by (simp add: plan_defs raises_def is_request_error_def)
  have lines: "concat (map error_lines ?B) @ [''Failed to save memory to any endpoint''] =
       [''Trying endpoint: http://localhost:8050/api/save_memory'',
        ''Error with http://localhost:8050/api/save_memory: timed out'',
        ''Trying endpoint: http://localhost:8051/api/save_memory'',
        ''Error with http://localhost:8051/api/save_memory: timed out'',
        ''Trying endpoint: http://localhost:8050/sse/save_memory'',
        ''Error with http://localhost:8050/sse/save_memory: timed out'',
        ''Trying endpoint: http://localhost:8051/sse/save_memory'',
        ''Error with http://localhost:8051/sse/save_memory: timed out'',
        ''Trying endpoint: http://localhost:8050/mem0/save_memory'',
        ''Error with http://localhost:8050/mem0/save_memory: timed out'',
        ''Trying endpoint: http://localhost:8051/mem0/save_memory'',
        ''Error with http://localhost:8051/mem0/save_memory: timed out'',
        ''Failed to save memory to any endpoint'']"
    by (simp add: plan_defs raises_def error_lines_def)
  have o: "stdout init_state = []" by (simp add: init_state_def)
  note w1 = failure_moves_on[where es = endpoints and post = flaky and con = reliable
      and m = "''note''" and t = None and s = init_state and j = 1 and i = 2
      and e = "''connection refused''"]
  note w2 = failure_moves_on[where es = endpoints and post = "raises (RequestException ''timed out'')"
      and con = reliable and m = "''note''" and t = None and s = init_state]
  have p1: "take (Suc (Suc 1)) (attempted init_state (snd (save_memory_on endpoints flaky reliable ''note'' None init_state)))
      = take (Suc (Suc 1)) ?A"
    using w1[THEN conjunct1] j fs2 accepts_reliable by blast
  have p2: "\<exists>pre suf. stdout (snd (save_memory_on endpoints flaky reliable ''note'' None init_state)) =
      pre @ text_of [''Trying endpoint: '' @ endpoints ! 2,
                     ''Error with '' @ endpoints ! 2 @ '': '' @ ''connection refused''] @ suf"
    using w1[THEN conjunct2, THEN conjunct1] i fs2' e accepts_reliable by blast
  have p3: "stdout (snd (save_memory_on endpoints (raises (RequestException ''timed out'')) reliable
                           ''note'' None init_state)) =
      stdout init_state @ text_of (concat (map error_lines ?B) @ [''Failed to save memory to any endpoint''])"
    using w2[THEN conjunct2, THEN conjunct2] all accepts_reliable by blast
  have q1: "map snd (take 3 (attempted init_state (snd (save_memory_on endpoints flaky reliable ''note'' None init_state))))
      = map snd (take (Suc (Suc 1)) ?A)"
    using p1 by (simp add: numeral_3_eq_3)
  show ?thesis
    using q1 p2 p3 unfolding A3 e2 lines o save_memory_def by simp
qed

text \<open>
  The statement without the amendment fails in two ways. A \<open>RequestException\<close> whose
  text the output channel cannot encode makes the \<open>print\<close> of the \<open>except\<close> clause
  raise: the failure is not recorded and the second endpoint is never tried. And with
  a network that answers every request with 404 the output has the six announcements
  and the closing line, and no line between them.
\<close>

theorem silent_status_counterexample:
  "fst (save_memory (raises (RequestException [CHR 0xC3, CHR 0xA9])) ascii_only ''note'' None init_state)
     = Inr False \<and>
   map snd (attempted init_state
              (snd (save_memory (raises (RequestException [CHR 0xC3, CHR 0xA9])) ascii_only ''note'' None
                      init_state)))
     = [Inl (RequestException [CHR 0xC3, CHR 0xA9])] \<and>
   stdout (snd (save_memory (raises (RequestException [CHR 0xC3, CHR 0xA9])) ascii_only ''note'' None
                  init_state)) =
     text_of [''Trying endpoint: http://localhost:8050/api/save_memory'',
              ''Error: ascii codec cannot encode character''] \<and>
   stdout (snd (save_memory (respond_with 404 ''not found'') reliable ''note'' None init_state)) =
     text_of [''Trying endpoint: http://localhost:8050/api/save_memory'',
              ''Trying endpoint: http://localhost:8051/api/save_memory'',
              ''Trying endpoint: http://localhost:8050/sse/save_memory'',
              ''Trying endpoint: http://localhost:8051/sse/save_memory'',
              ''Trying endpoint: http://localhost:8050/mem0/save_memory'',
              ''Trying endpoint: http://localhost:8051/mem0/save_memory'',
              ''Failed to save memory to any endpoint''] \<and>
   map snd (attempted init_state
              (snd (save_memory (respond_with 404 ''not found'') reliable ''note'' None init_state)))
     = replicate 6 (Inr \<lparr>status_code = 404, resp_text = ''not found''\<rparr>)"
  by (simp add: run_defs raises_def respond_with_def reliable_def ascii_only_def numeral_eq_Suc)

subsection \<open>Exceptions and the catch-all\<close>






subsection \<open>The empty list\<close>



subsection \<open>Endpoints and transport\<close>

lemma attempted_requests:
  assumes run: "save_memory_on es post con m t s = (r, s')"
  shows "map fst (attempted s s') =
           map (post_request (entry_heap t s) (entry_payload m t s)) (take (length (attempted s s')) es)"
    and "length (attempted s s') \<le> length es"
proof -
  from run_inv(1)[OF run] obtain n where n: "n \<le> length es"
    "attempted s s' = take n (answers post m t s es)" by blast
  have len: "length (attempted s s') = n" using n by (simp add: answers_def)
  show "map fst (attempted s s') =
           map (post_request (entry_heap t s) (entry_payload m t s)) (take (length (attempted s s')) es)"
    unfolding len unfolding n(2) by (simp add: answers_def take_map[symmetric])
  show "length (attempted s s') \<le> length es" using len n(1) by simp
qed

lemma first_endpoint_tried:
  assumes run: "save_memory_on es post con m t s = (r, s')" and es: "es \<noteq> []"
    and acc: "con (stdout s) (''Trying endpoint: '' @ hd es) = None"
  shows "attempted s s' \<noteq> []"
proof -
  from run_inv(1)[OF run] es acc obtain n where n: "n \<le> length es" "0 < n"
    "attempted s s' = take n (answers post m t s es)" by blast
  then have "length (attempted s s') = n" by (simp add: answers_def)
  with n(2) show ?thesis by auto
qed

text \<open>
  Claim C8. The endpoint list is the six loopback URLs that combine, in this order, the
  three paths \<open>/api/save_memory\<close>, \<open>/sse/save_memory\<close> and \<open>/mem0/save_memory\<close>
  with the two ports 8050 and 8051. In every run the requests go to an initial segment
  of that list, in order, and each one is a POST with a timeout of 5 seconds. The first
  endpoint is tried whenever its announcement can be printed, and when all six
  endpoints fail and the output channel accepts the texts printed, all six are tried,
  in the order of the list.
\<close>

theorem six_loopback_endpoints:
  "endpoints =
     concat (map (\<lambda>path. map (\<lambda>port. ''http://localhost:'' @ port @ path) [''8050'', ''8051''])
                 [''/api/save_memory'', ''/sse/save_memory'', ''/mem0/save_memory'']) \<and>
   map (\<lambda>a. url (fst a)) (attempted s (snd (save_memory post con m t s)))
     = take (length (attempted s (snd (save_memory post con m t s)))) endpoints \<and>
   map (\<lambda>a. http_method (fst a)) (attempted s (snd (save_memory post con m t s)))
     = replicate (length (attempted s (snd (save_memory post con m t s)))) POST \<and>
   map (\<lambda>a. timeout (fst a)) (attempted s (snd (save_memory post con m t s)))
     = replicate (length (attempted s (snd (save_memory post con m t s)))) 5 \<and>
   (con (stdout s) ''Trying endpoint: http://localhost:8050/api/save_memory'' = None \<longrightarrow>
      attempted s (snd (save_memory post con m t s)) \<noteq> []) \<and>
   (list_all (\<lambda>a. is_failure (snd a)) (answers post m t s endpoints) \<and>
    accepts con (stdout s) (run_lines (answers post m t s endpoints)) \<longrightarrow>
      map (\<lambda>a. url (fst a)) (attempted s (snd (save_memory post con m t s))) = endpoints)"
proof -
  let ?run = "save_memory_on endpoints post con m t s"
  let ?tr = "attempted s (snd ?run)"
  let ?A = "answers post m t s endpoints"
  let ?mk = "post_request (entry_heap t s) (entry_payload m t s)"
  have run: "?run = (fst ?run, snd ?run)" by simp
  have reqs: "map fst ?tr = map ?mk (take (length ?tr) endpoints)"
    using attempted_requests(1)[OF run] .
  have len: "length (take (length ?tr) endpoints) = length ?tr"
    using attempted_requests(2)[OF run] by simp
  have "map (\<lambda>a. url (fst a)) ?tr = map url (map fst ?tr)" by simp
  also have "\<dots> = take (length ?tr) endpoints" unfolding reqs by (simp add: comp_def)
  finally have u: "map (\<lambda>a. url (fst a)) ?tr = take (length ?tr) endpoints" .
  have "map (\<lambda>a. http_method (fst a)) ?tr = map http_method (map fst ?tr)" by simp
  also have "\<dots> = replicate (length ?tr) POST"
    unfolding reqs using len by (simp add: comp_def post_request_def map_replicate_const)
  finally have v: "map (\<lambda>a. http_method (fst a)) ?tr = replicate (length ?tr) POST" .
  have "map (\<lambda>a. timeout (fst a)) ?tr = map timeout (map fst ?tr)" by simp
  also have "\<dots> = replicate (length ?tr) 5"
    unfolding reqs using len by (simp add: comp_def post_request_def map_replicate_const)
  finally have w: "map (\<lambda>a. timeout (fst a)) ?tr = replicate (length ?tr) 5" .
  have e: "endpoints =
     concat (map (\<lambda>path. map (\<lambda>port. ''http://localhost:'' @ port @ path) [''8050'', ''8051''])
                 [''/api/save_memory'', ''/sse/save_memory'', ''/mem0/save_memory''])"
    by (simp add: endpoints_def)
  have ne: "?tr \<noteq> []"
    if "con (stdout s) ''Trying endpoint: http://localhost:8050/api/save_memory'' = None"
    using first_endpoint_tried[OF run] that by (simp add: endpoints_def)
  have all: "map (\<lambda>a. url (fst a)) ?tr = endpoints"
    if fs: "list_all (\<lambda>a. is_failure (snd a)) ?A" and acc: "accepts con (stdout s) (run_lines ?A)"
  proof -
    have lenA: "length ?A = length endpoints" by (simp add: answers_def)
    have fs': "list_all (\<lambda>a. is_failure (snd a)) (take (length endpoints) ?A)"
      and acc': "accepts con (stdout s) (run_lines (take (length endpoints) ?A))"
      using fs acc lenA by simp_all
    from run_continues[OF run le_refl fs' acc'] obtain k where
      "length endpoints \<le> k" "k \<le> length endpoints" "?tr = take k ?A" by blast
    then have "?tr = take (length endpoints) ?A" by simp
    then have "map (\<lambda>a. url (fst a)) ?tr = take (length endpoints) endpoints"
      by (simp only: urls_of_answers)
    then show ?thesis by simp
  qed
  show ?thesis using e u v w ne all unfolding save_memory_def by blast
qed

text \<open>Six failing endpoints: six requests, in the order of the list.\<close>

theorem six_loopback_endpoints_witness:
  "map (\<lambda>a. url (fst a)) (attempted init_state (snd (save_memory flaky reliable ''note'' None init_state)))
     = [''http://localhost:8050/api/save_memory'',
        ''http://localhost:8051/api/save_memory'',
        ''http://localhost:8050/sse/save_memory'',
        ''http://localhost:8051/sse/save_memory'',
        ''http://localhost:8050/mem0/save_memory'',
        ''http://localhost:8051/mem0/save_memory''] \<and>
   map (\<lambda>a. http_method (fst a))
       (attempted init_state (snd (save_memory flaky reliable ''note'' None init_state)))
     = [POST, POST, POST, POST, POST, POST] \<and>
   map (\<lambda>a. timeout (fst a))
       (attempted init_state (snd (save_memory flaky reliable ''note'' None init_state)))
     = [5, 5, 5, 5, 5, 5]"
proof -
  let ?tr = "attempted init_state (snd (save_memory flaky reliable ''note'' None init_state))"
  have fs: "list_all (\<lambda>a. is_failure (snd a)) (answers flaky ''note'' None init_state endpoints)"
    by (simp add: plan_defs flaky_def is_failure_def)
  note w = six_loopback_endpoints[where post = flaky and con = reliable and m = "''note''"
      and t = None and s = init_state]
  have u: "map (\<lambda>a. url (fst a)) ?tr = endpoints"
    using w[THEN conjunct2, THEN conjunct2, THEN conjunct2, THEN conjunct2, THEN conjunct2]
      fs accepts_reliable by blast
  have "length (map (\<lambda>a. url (fst a)) ?tr) = length endpoints" by (simp only: u)
  then have "length ?tr = 6" by (simp add: endpoints_def)
  then show ?thesis
    using u w[THEN conjunct2, THEN conjunct2, THEN conjunct1]
      w[THEN conjunct2, THEN conjunct2, THEN conjunct2, THEN conjunct1]
    by (simp add: endpoints_def numeral_eq_Suc)
qed

subsection \<open>The payload\<close>

text \<open>
  Every request of a run carries the same document: the field \<open>memory\<close> with the text
  given, and the field \<open>tags\<close> with the elements of the list given, or with no element
  when no list was given.
\<close>

lemma request_bodies:
  assumes run: "save_memory_on es post con m t s = (r, s')"
  shows "map (\<lambda>a. json (fst a)) (attempted s s') =
     replicate (length (attempted s s'))
       (JObject [(''memory'', JString m),
                 (''tags'', JArray (map JString (case t of None \<Rightarrow> [] | Some a \<Rightarrow> heap s a)))])"
proof -
  let ?tr = "attempted s s'"
  have len: "length (take (length ?tr) es) = length ?tr"
    using attempted_requests(2)[OF run] by simp
  have body: "json (post_request (entry_heap t s) (entry_payload m t s) e) =
      JObject [(''memory'', JString m),
               (''tags'', JArray (map JString (case t of None \<Rightarrow> [] | Some a \<Rightarrow> heap s a)))]" for e
    by (cases t) (simp_all add: post_request_def payload_json_def entry_heap_def entry_payload_def)
  have "map (\<lambda>a. json (fst a)) ?tr = map json (map fst ?tr)" by simp
  also have "\<dots> = replicate (length ?tr)
       (JObject [(''memory'', JString m),
                 (''tags'', JArray (map JString (case t of None \<Rightarrow> [] | Some a \<Rightarrow> heap s a)))])"
    unfolding attempted_requests(1)[OF run] using len by (simp add: comp_def body map_replicate_const)
  finally show ?thesis .
qed

text \<open>
  Claim C9. When \<open>save_memory\<close> is called without tags (\<open>None\<close>), the \<open>tags\<close> field
  of the document sent with every request is the empty array; with a list given it is
  the array of that list's elements. In both cases it is an array and never null. At
  least one request is sent whenever the announcement of the first attempt can be
  printed.
\<close>

theorem default_tags_empty_list:
  "(con (stdout s) ''Trying endpoint: http://localhost:8050/api/save_memory'' = None \<longrightarrow>
      attempted s (snd (save_memory post con m t s)) \<noteq> []) \<and>
   map (\<lambda>a. json (fst a)) (attempted s (snd (save_memory post con m None s))) =
     replicate (length (attempted s (snd (save_memory post con m None s))))
       (JObject [(''memory'', JString m), (''tags'', JArray [])]) \<and>
   map (\<lambda>a. json (fst a)) (attempted s (snd (save_memory post con m (Some a) s))) =
     replicate (length (attempted s (snd (save_memory post con m (Some a) s))))
       (JObject [(''memory'', JString m), (''tags'', JArray (map JString (heap s a)))])"
proof -
  have run: "save_memory_on endpoints post con m t' s =
      (fst (save_memory_on endpoints post con m t' s), snd (save_memory_on endpoints post con m t' s))"
    for t' by simp
  have ne: "attempted s (snd (save_memory_on endpoints post con m t s)) \<noteq> []"
    if "con (stdout s) ''Trying endpoint: http://localhost:8050/api/save_memory'' = None"
    using first_endpoint_tried[OF run] that by (simp add: endpoints_def)
  show ?thesis
    using ne request_bodies[OF run[of None]] request_bodies[OF run[of "Some a"]]
    unfolding save_memory_def by simp
qed

text \<open>A call without tags on an output channel that does not fail.\<close>

theorem default_tags_empty_list_witness:
  "attempted init_state (snd (save_memory third_accepts reliable ''note'' None init_state)) \<noteq> [] \<and>
   map (\<lambda>a. json (fst a))
       (attempted init_state (snd (save_memory third_accepts reliable ''note'' None init_state))) =
     replicate (length (attempted init_state
                          (snd (save_memory third_accepts reliable ''note'' None init_state))))
       (JObject [(''memory'', JString ''note''), (''tags'', JArray [])])"
proof -
  have c: "reliable (stdout init_state) ''Trying endpoint: http://localhost:8050/api/save_memory'' = None"
    by (simp add: reliable_def)
  note w = default_tags_empty_list[where post = third_accepts and con = reliable and m = "''note''"
      and t = None and s = init_state]
  show ?thesis using w[THEN conjunct1] w[THEN conjunct2, THEN conjunct1] c by blast
qed

subsection \<open>Frame\<close>

text \<open>
  Claim C10. \<open>save_memory\<close> does not mutate its arguments. Called with a list of tags,
  it leaves the whole store as it was, the list included: the state after the call
  differs from the state before only in the output, in the network and in the log of
  requests. Called without tags, it also allocates one fresh empty list and changes no
  object that existed before. The text argument is an immutable value.
\<close>

theorem arguments_not_mutated:
  "snd (save_memory post con m (Some a) s) =
     s\<lparr>stdout := stdout (snd (save_memory post con m (Some a) s)),
       world := world (snd (save_memory post con m (Some a) s)),
       attempts := attempts (snd (save_memory post con m (Some a) s))\<rparr> \<and>
   snd (save_memory post con m None s) =
     s\<lparr>heap := (heap s)(next_addr s := []),
       next_addr := Suc (next_addr s),
       stdout := stdout (snd (save_memory post con m None s)),
       world := world (snd (save_memory post con m None s)),
       attempts := attempts (snd (save_memory post con m None s))\<rparr>"
proof -
  have run: "save_memory_on endpoints post con m t' s =
      (fst (save_memory_on endpoints post con m t' s), snd (save_memory_on endpoints post con m t' s))"
    for t' by simp
  let ?a = "snd (save_memory_on endpoints post con m (Some a) s)"
  let ?n = "snd (save_memory_on endpoints post con m None s)"
  have "heap ?a = heap s" "next_addr ?a = next_addr s"
    using run_inv(2)[OF run[of "Some a"]] run_inv(3)[OF run[of "Some a"]]
    by (simp_all add: entry_heap_def)
  then have A: "?a = s\<lparr>stdout := stdout ?a, world := world ?a, attempts := attempts ?a\<rparr>"
    by (intro state.equality) simp_all
  have "heap ?n = (heap s)(next_addr s := [])" "next_addr ?n = Suc (next_addr s)"
    using run_inv(2)[OF run[of None]] run_inv(3)[OF run[of None]]
    by (simp_all add: entry_heap_def)
  then have N: "?n = s\<lparr>heap := (heap s)(next_addr s := []), next_addr := Suc (next_addr s),
       stdout := stdout ?n, world := world ?n, attempts := attempts ?n\<rparr>"
    by (intro state.equality) simp_all
  show ?thesis using A N unfolding save_memory_def by blast
qed

end
